theory Spec2Isabelle
  imports Complex_Main "HOL-Library.Monad_Syntax"
begin

section \<open>The Duffing oscillator of \<open>main.py\<close>\<close>

text \<open>
  The numerical core of the script is the potential \<open>V\<close>, its derivative \<open>dVdx\<close>, the
  vector field \<open>deriv\<close> and the solver \<open>solve_duffing\<close>. Python floats are embedded as
  \<^typ>\<open>real\<close>: arithmetic is exact, so rounding, overflow and underflow of binary64 are
  not part of this embedding. Where a result of the script depends on rounding (the
  stride \<open>step\<close>), the lines concerned are embedded a second time, in binary64, in the
  section on the stride below.
\<close>

subsection \<open>Potential and force\<close>

text \<open>
  \<^verbatim>\<open>V    = lambda x: 0.5 * x**2 * (0.5 * x**2 - 1)\<close>
  \<^verbatim>\<open>dVdx = lambda x: x**3 - x\<close>
\<close>

definition V :: "real \<Rightarrow> real" where
  "V x = 0.5 * x^2 * (0.5 * x^2 - 1)"

definition dVdx :: "real \<Rightarrow> real" where
  "dVdx x = x^3 - x"

subsection \<open>The vector field\<close>

text \<open>
  \<^verbatim>\<open>def deriv(X, t, gamma, delta, omega):\<close>
  \<^verbatim>\<open>    x, xdot = X\<close>
  \<^verbatim>\<open>    xdotdot = -dVdx(x) -delta * xdot + gamma * np.cos(omega*t)\<close>
  \<^verbatim>\<open>    return xdot, xdotdot\<close>
\<close>

type_synonym state = "real \<times> real"

fun deriv :: "state \<Rightarrow> real \<Rightarrow> real \<Rightarrow> real \<Rightarrow> real \<Rightarrow> state" where
  "deriv (x, xdot) t gamma delta omega =
     (let xdotdot = - dVdx x - delta * xdot + gamma * cos (omega * t)
      in (xdot, xdotdot))"

subsection \<open>The solver\<close>

text \<open>
  \<^verbatim>\<open>def solve_duffing(tmax, dt_per_period, t_trans, x0, v0, gamma, delta, omega):\<close>
  \<^verbatim>\<open>    period = 2*np.pi/omega\<close>
  \<^verbatim>\<open>    dt     = 2*np.pi/omega / dt_per_period\<close>
  \<^verbatim>\<open>    step   = int(period / dt)\<close>
  \<^verbatim>\<open>    t      = np.arange(0, tmax, dt)\<close>
  \<^verbatim>\<open>    X0     = [x0, v0]\<close>
  \<^verbatim>\<open>    X      = odeint(deriv, X0, t, args=(gamma, delta, omega))\<close>
  \<^verbatim>\<open>    idx    = int(t_trans / dt)\<close>
  \<^verbatim>\<open>    return t[idx:], X[idx:], dt, step\<close>

  The arguments are Python numbers, as in the script's call: dividing by a zero \<open>omega\<close> or a
  zero \<open>dt_per_period\<close> raises \<open>ZeroDivisionError\<close>. The function has no other check of
  its arguments. \<open>odeint\<close> is SciPy's, not code of the script: it is a parameter of the
  model, and whatever it raises leaves \<open>solve_duffing\<close> unchanged.
\<close>

datatype error = ZeroDivisionError | OdeintError string

text \<open>\<open>int(x)\<close> on a float truncates towards zero.\<close>

definition py_int :: "real \<Rightarrow> int" where
  "py_int x = (if 0 \<le> x then \<lfloor>x\<rfloor> else \<lceil>x\<rceil>)"

text \<open>
  \<open>np.arange(0, stop, step)\<close> for a non-zero \<open>step\<close> has \<open>max(0, ceil(stop / step))\<close>
  entries, the \<open>k\<close>-th one being \<open>0 + k * step\<close>.
\<close>

definition arange :: "real \<Rightarrow> real \<Rightarrow> real list" where
  "arange stop step = map (\<lambda>k. real k * step) [0 ..< nat \<lceil>stop / step\<rceil>]"

text \<open>
  The slice \<open>a[idx:]\<close>: a negative \<open>idx\<close> counts from the end, and a start outside the
  array is clipped to it.
\<close>

definition slice_from :: "int \<Rightarrow> 'a list \<Rightarrow> 'a list" where
  "slice_from idx xs =
     (if 0 \<le> idx then drop (nat idx) xs else drop (nat (int (length xs) + idx)) xs)"

type_synonym integrator =
  "(state \<Rightarrow> real \<Rightarrow> state) \<Rightarrow> state \<Rightarrow> real list \<Rightarrow> error + state list"

definition solve_duffing ::
  "integrator \<Rightarrow> real \<Rightarrow> int \<Rightarrow> real \<Rightarrow> real \<Rightarrow> real \<Rightarrow> real \<Rightarrow> real \<Rightarrow> real
     \<Rightarrow> error + (real list \<times> state list \<times> real \<times> int)" where
  "solve_duffing odeint tmax dt_per_period t_trans x0 v0 gamma delta omega =
     (if omega = 0 then Inl ZeroDivisionError
      else let period = 2 * pi / omega in
      if dt_per_period = 0 then Inl ZeroDivisionError
      else let dt = 2 * pi / omega / of_int dt_per_period;
               step = py_int (period / dt);
               t = arange tmax dt;
               X0 = (x0, v0)
      in case odeint (\<lambda>X t. deriv X t gamma delta omega) X0 t of
           Inl e \<Rightarrow> Inl e
         | Inr X \<Rightarrow>
             let idx = py_int (t_trans / dt)
             in Inr (slice_from idx t, slice_from idx X, dt, step))"

text \<open>
  The inputs the specification calls valid.
\<close>

definition valid_input :: "real \<Rightarrow> int \<Rightarrow> real \<Rightarrow> real \<Rightarrow> bool" where
  "valid_input tmax dt_per_period t_trans omega \<longleftrightarrow>
     0 < tmax \<and> 2 \<le> dt_per_period \<and> 0 \<le> t_trans \<and> t_trans < tmax \<and> 0 < omega"

subsection \<open>An integrator to run the solver with\<close>

text \<open>
  An instance of the integrator interface (one row per grid time, the first row being
  the initial state at the first grid time): the explicit Euler method. It stands for
  the library routine wherever a theorem runs \<open>solve_duffing\<close> on a concrete input; no
  claim below depends on the numbers it produces.
\<close>

fun euler_from :: "(state \<Rightarrow> real \<Rightarrow> state) \<Rightarrow> state \<Rightarrow> real \<Rightarrow> real list \<Rightarrow> state list" where
  "euler_from f X t [] = []"
| "euler_from f X t (t' # ts) =
     (let X' = (fst X + (t' - t) * fst (f X t), snd X + (t' - t) * snd (f X t))
      in X' # euler_from f X' t' ts)"

definition odeint_euler :: integrator where
  "odeint_euler f X0 ts =
     (case ts of
        [] \<Rightarrow> Inl (OdeintError ''empty time grid'')
      | t0 # rest \<Rightarrow> Inr (X0 # euler_from f X0 t0 rest))"

subsection \<open>The stride in binary64\<close>

text \<open>
  Lines 48 to 50 once more, with Python's float arithmetic: every \<open>*\<close> and \<open>/\<close> returns
  the binary64 number nearest to the exact result, ties to the even significand. A
  positive normal binary64 number with significand \<open>m\<close> (\<open>2\<^sup>5\<^sup>2 \<le> m < 2\<^sup>5\<^sup>3\<close>) and exponent
  \<open>e\<close> (\<open>-1074 \<le> e \<le> 971\<close>) is the pair \<open>(m, e)\<close> and denotes \<open>m * 2\<^sup>e\<close>. Zero, negative
  numbers, subnormals, infinities and NaN are outside this fragment: an operation whose
  result leaves it returns \<open>None\<close>.
\<close>

type_synonym f64 = "int \<times> int"

definition f64_val :: "f64 \<Rightarrow> real" where
  "f64_val d = of_int (fst d) * 2 powi (snd d)"

definition f64_normal :: "f64 \<Rightarrow> bool" where
  "f64_normal d \<longleftrightarrow> 2^52 \<le> fst d \<and> fst d < 2^53 \<and> - 1074 \<le> snd d \<and> snd d \<le> 971"

text \<open>The quotient \<open>N / D\<close> of two positive integers, rounded to the nearest integer, ties to even.\<close>

definition round_half_even :: "int \<Rightarrow> int \<Rightarrow> int" where
  "round_half_even N D =
     (let q = N div D; r = N mod D
      in if D < 2 * r \<or> (2 * r = D \<and> odd q) then q + 1 else q)"

text \<open>A rounded significand in \<open>[2\<^sup>5\<^sup>2, 2\<^sup>5\<^sup>3]\<close> with its exponent, as a number of the fragment.\<close>

definition f64_pack :: "int \<Rightarrow> int \<Rightarrow> f64 option" where
  "f64_pack m e =
     (let d = (if m = 2^53 then (2^52, e + 1) else (m, e))
      in if f64_normal d then Some d else None)"

definition f64_mul :: "f64 \<Rightarrow> f64 \<Rightarrow> f64 option" where
  "f64_mul a b =
     (let P = fst a * fst b; s = (if P < 2^105 then 52 else 53::nat)
      in f64_pack (round_half_even P (2^s)) (snd a + snd b + int s))"

definition f64_div :: "f64 \<Rightarrow> f64 \<Rightarrow> f64 option" where
  "f64_div a b =
     (let s = (if fst b \<le> fst a then 52 else 53::nat)
      in f64_pack (round_half_even (fst a * 2^s) (fst b)) (snd a - snd b - int s))"

text \<open>
  A Python \<open>int\<close> operand of a float operation is converted to float first; below \<open>2\<^sup>5\<^sup>3\<close>
  the conversion is exact. \<open>f64_shift\<close> moves the leading bit to position 52.
\<close>

function f64_shift :: "int \<Rightarrow> int \<Rightarrow> f64" where
  "f64_shift m e = (if 0 < m \<and> m < 2^52 then f64_shift (2 * m) (e - 1) else (m, e))"
  by pat_completeness auto
termination
  by (relation "measure (\<lambda>(m, e). nat (2^52 - m))") auto

declare f64_shift.simps [simp del]

definition f64_of_int :: "int \<Rightarrow> f64 option" where
  "f64_of_int n = (if 0 < n \<and> n < 2^53 then Some (f64_shift n 0) else None)"

text \<open>\<open>int(x)\<close> on a positive float: the integer part.\<close>

definition f64_to_int :: "f64 \<Rightarrow> int" where
  "f64_to_int d =
     (if 0 \<le> snd d then fst d * 2 ^ nat (snd d) else fst d div 2 ^ nat (- snd d))"

text \<open>\<open>np.pi\<close> is the binary64 number \<open>0x1.921fb54442d18p+1\<close>.\<close>

definition np_pi :: f64 where
  "np_pi = (7074237752028440, - 51)"

text \<open>
  \<^verbatim>\<open>    period = 2*np.pi/omega\<close>
  \<^verbatim>\<open>    dt     = 2*np.pi/omega / dt_per_period\<close>
  \<^verbatim>\<open>    step   = int(period / dt)\<close>
\<close>

definition stride_f64 :: "f64 \<Rightarrow> int \<Rightarrow> (f64 \<times> f64 \<times> int) option" where
  "stride_f64 omega dt_per_period =
     do {
       two \<leftarrow> f64_of_int 2;
       two_pi \<leftarrow> f64_mul two np_pi;
       period \<leftarrow> f64_div two_pi omega;
       n \<leftarrow> f64_of_int dt_per_period;
       dt \<leftarrow> f64_div period n;
       q \<leftarrow> f64_div period dt;
       Some (period, dt, f64_to_int q)
     }"

text \<open>The binary64 number nearest to the decimal literal \<open>0.28\<close>: \<open>0x1.1eb851eb851ecp-2\<close>.\<close>

definition omega_028 :: f64 where
  "omega_028 = (5044031582654956, - 54)"

section \<open>Properties of the model\<close>

text \<open>
  C5: the potential is \<open>V(x) = 0.5 x\<^sup>2 (0.5 x\<^sup>2 - 1)\<close>, the force function is
  \<open>dVdx(x) = x\<^sup>3 - x\<close>, and \<open>dVdx\<close> is the derivative of \<open>V\<close> at every real \<open>x\<close>.
\<close>

theorem C5_potential_and_derivative:
  "V x = 0.5 * x^2 * (0.5 * x^2 - 1) \<and> dVdx x = x^3 - x \<and> (V has_real_derivative dVdx x) (at x)"
proof -
  have "((\<lambda>y. 0.5 * y^2 * (0.5 * y^2 - 1)) has_real_derivative dVdx x) (at x)"
    unfolding dVdx_def
    by (auto intro!: derivative_eq_intros simp: power2_eq_square power3_eq_cube algebra_simps)
  moreover have "V = (\<lambda>y. 0.5 * y^2 * (0.5 * y^2 - 1))"
    by (rule ext) (simp add: V_def)
  ultimately show ?thesis
    by (simp add: V_def dVdx_def)
qed

text \<open>
  C8: the potential is an even function and its derivative an odd one.
\<close>

theorem C8_potential_symmetry:
  "V x = V (- x) \<and> dVdx (- x) = - dVdx x"
  by (simp add: V_def dVdx_def)

text \<open>
  C4: \<open>deriv\<close> returns the input velocity as first component and
  \<open>- dVdx x - delta * xdot + gamma * cos (omega * t)\<close> as second; it is a function of its
  arguments alone.
\<close>

theorem C4_deriv_components:
  "deriv (x, xdot) t gamma delta omega =
     (xdot, - dVdx x - delta * xdot + gamma * cos (omega * t))"
  by simp

subsection \<open>The time grid\<close>

lemma arange_length: "length (arange stop step) = nat \<lceil>stop / step\<rceil>"
  by (simp add: arange_def)

lemma arange_nth: "k < nat \<lceil>stop / step\<rceil> \<Longrightarrow> arange stop step ! k = real k * step"
  by (simp add: arange_def)

lemma py_int_of_int: "py_int (of_int n) = n"
  by (simp add: py_int_def)

lemma period_over_dt:
  assumes "omega \<noteq> 0" "n \<noteq> 0"
  shows "(2 * pi / omega) / (2 * pi / omega / of_int n) = (of_int n :: real)"
  using assms by simp

lemma solve_duffing_unfold:
  assumes "omega \<noteq> 0" "n \<noteq> 0"
  shows "solve_duffing od tmax n t_trans x0 v0 gamma delta omega =
     (case od (\<lambda>X t. deriv X t gamma delta omega) (x0, v0) (arange tmax (2 * pi / omega / of_int n)) of
        Inl e \<Rightarrow> Inl e
      | Inr X \<Rightarrow> Inr (slice_from (py_int (t_trans / (2 * pi / omega / of_int n))) (arange tmax (2 * pi / omega / of_int n)),
                     slice_from (py_int (t_trans / (2 * pi / omega / of_int n))) X,
                     2 * pi / omega / of_int n, n))"
proof -
  have "py_int ((2 * pi / omega) / (2 * pi / omega / of_int n)) = n"
    by (simp only: period_over_dt[OF assms] py_int_of_int)
  then show ?thesis
    unfolding solve_duffing_def Let_def using assms by (simp only: if_False)
qed

lemma dt_pos: "0 < omega \<Longrightarrow> 0 < n \<Longrightarrow> 0 < 2 * pi / omega / real_of_int n"
  by simp





subsection \<open>Bounds on \<open>pi\<close>\<close>

text \<open>
  The concrete runs below need \<open>3.12 < pi < 3.16\<close>, from the Taylor polynomial of the
  cosine at \<open>1.56\<close> and at \<open>1.58\<close>.
\<close>

lemma sum_lessThan_8:
  fixes f :: "nat \<Rightarrow> real"
  shows "(\<Sum>m<8. f m) = f 0 + f 1 + f 2 + f 3 + f 4 + f 5 + f 6 + f 7"
  by (simp add: eval_nat_numeral)

lemma cos_coeff_values:
  "cos_coeff 0 = 1" "cos_coeff 1 = 0" "cos_coeff 2 = - 1/2" "cos_coeff 3 = 0"
  "cos_coeff 4 = 1/24" "cos_coeff 5 = 0" "cos_coeff 6 = - 1/720" "cos_coeff 7 = 0"
  by (simp_all add: cos_coeff_def fact_numeral)

lemma cos_taylor8:
  fixes x :: real
  assumes "0 < x"
  shows "\<bar>cos x - (1 - x^2/2 + x^4/24 - x^6/720)\<bar> \<le> x^8/40320"
proof -
  obtain t where t: "cos x = (\<Sum>m<8. cos_coeff m * x ^ m) + (cos (t + 1/2 * real 8 * pi) / fact 8) * x ^ 8"
    using Maclaurin_cos_expansion2[OF assms, of 8] by auto
  have s: "(\<Sum>m<8. cos_coeff m * x ^ m) = 1 - x^2/2 + x^4/24 - x^6/720"
    unfolding sum_lessThan_8 cos_coeff_values by simp
  have f: "fact 8 = (40320::real)"
    by (simp add: fact_numeral)
  have "cos x - (1 - x^2/2 + x^4/24 - x^6/720) = cos (t + 4 * pi) * (x^8/40320)"
    using t s f by simp
  then have "\<bar>cos x - (1 - x^2/2 + x^4/24 - x^6/720)\<bar> = \<bar>cos (t + 4 * pi) * (x^8/40320)\<bar>"
    by (simp only:)
  also have "\<dots> \<le> 1 * (x^8/40320)"
    unfolding abs_mult by (rule mult_mono) (use assms in auto)
  finally show ?thesis by (simp only: mult_1)
qed

lemma pi_lower: "(3.12::real) < pi"
proof -
  have "\<bar>cos (1.56::real) - (1 - 1.56^2/2 + 1.56^4/24 - 1.56^6/720)\<bar> \<le> 1.56^8/40320"
    by (rule cos_taylor8) simp
  then have "(1 - 1.56^2/2 + 1.56^4/24 - 1.56^6/720) - 1.56^8/40320 \<le> cos (1.56::real)"
    by (simp only: abs_le_iff) linarith
  moreover have "(0::real) < (1 - 1.56^2/2 + 1.56^4/24 - 1.56^6/720) - 1.56^8/40320"
    by (simp add: power_divide)
  ultimately have pos: "0 < cos (1.56::real)"
    by linarith
  show ?thesis
  proof (rule ccontr)
    assume "\<not> 3.12 < pi"
    then have "pi/2 \<le> 1.56" by simp
    moreover have "(1.56::real) \<le> pi" using pi_ge_two by simp
    ultimately have "cos 1.56 \<le> cos (pi/2)"
      by (intro cos_monotone_0_pi_le) simp_all
    with pos show False by simp
  qed
qed

lemma pi_upper: "pi < (3.16::real)"
proof -
  have "\<bar>cos (1.58::real) - (1 - 1.58^2/2 + 1.58^4/24 - 1.58^6/720)\<bar> \<le> 1.58^8/40320"
    by (rule cos_taylor8) simp
  then have "cos (1.58::real) \<le> (1 - 1.58^2/2 + 1.58^4/24 - 1.58^6/720) + 1.58^8/40320"
    by (simp only: abs_le_iff) linarith
  moreover have "(1 - 1.58^2/2 + 1.58^4/24 - 1.58^6/720) + 1.58^8/40320 < (0::real)"
    by (simp add: power_divide)
  ultimately have neg: "cos (1.58::real) < 0"
    by linarith
  show ?thesis
  proof (rule ccontr)
    assume "\<not> pi < 3.16"
    then have "1.58 \<le> pi/2" by simp
    then have "cos (pi/2) \<le> cos 1.58"
      by (intro cos_monotone_0_pi_le) simp_all
    with neg show False by simp
  qed
qed

subsection \<open>Concrete runs\<close>

lemma odeint_euler_Inr:
  "ts \<noteq> [] \<Longrightarrow> odeint_euler f X0 ts = Inr (X0 # euler_from f X0 (hd ts) (tl ts))"
  by (cases ts) (simp_all add: odeint_euler_def)

lemma euler_from_length: "length (euler_from f X t ts) = length ts"
  by (induction ts arbitrary: X t) (simp_all add: Let_def)

lemma odeint_euler_length: "odeint_euler f X0 ts = Inr X \<Longrightarrow> length X = length ts"
  by (cases ts) (auto simp: odeint_euler_def euler_from_length)


lemma idx_44: "py_int (10 / (pi / 14)) = 44"
proof -
  have "\<lfloor>10 / (pi / 14)\<rfloor> = 44"
  proof (rule floor_unique)
    show "of_int 44 \<le> 10 / (pi / 14)"
      using pi_upper by (simp add: field_simps)
    show "10 / (pi / 14) < of_int 44 + 1"
      using pi_lower by (simp add: field_simps)
  qed
  then show ?thesis by (simp add: py_int_def)
qed

lemma slice_from_nat: "0 \<le> idx \<Longrightarrow> slice_from idx xs = drop (nat idx) xs"
  by (simp add: slice_from_def)


lemma arange_one: "0 < s \<Longrightarrow> s \<le> d \<Longrightarrow> arange s d = [0]"
proof -
  assume s: "0 < s" "s \<le> d"
  have "\<lceil>s / d\<rceil> = 1"
    by (rule ceiling_unique) (use s in simp_all)
  then show ?thesis by (simp add: arange_def)
qed

lemma dt_1_2: "2 * pi / 1 / real_of_int 2 = pi"
  by simp

lemma run_tmax1_ttrans1:
  "solve_duffing odeint_euler 1 2 1 0 0 0.08 0.02 1 = Inr ([0], [(0, 0)], pi, 2)"
proof -
  have g: "arange 1 pi = [0]"
    by (rule arange_one) (use pi_ge_two in simp_all)
  have "\<lfloor>1 / pi\<rfloor> = 0"
    by (rule floor_unique) (use pi_ge_two in simp_all)
  then have i: "py_int (1 / pi) = 0"
    by (simp add: py_int_def)
  show ?thesis
    by (simp only: solve_duffing_unfold[of 1 2, simplified] dt_1_2 g i)
       (simp add: odeint_euler_def slice_from_def)
qed

lemma run_tmax2_ttrans5:
  "solve_duffing odeint_euler 2 2 5 0 0 0.08 0.02 1 = Inr ([], [], pi, 2)"
proof -
  have g: "arange 2 pi = [0]"
    by (rule arange_one) (use pi_ge_two in simp_all)
  have "\<lfloor>5 / pi\<rfloor> = 1"
    by (rule floor_unique) (use pi_lower pi_less_4 in \<open>simp_all add: field_simps\<close>)
  then have i: "py_int (5 / pi) = 1"
    by (simp add: py_int_def)
  show ?thesis
    by (simp only: solve_duffing_unfold[of 1 2, simplified] dt_1_2 g i)
       (simp add: odeint_euler_def slice_from_def)
qed

lemma dt_scenario: "2 * pi / 0.28 / real_of_int 100 = pi / 14"
  by simp

text \<open>
  C1: the first returned time is claimed to satisfy \<open>t_trans \<le> t[0] < t_trans + dt\<close>. On
  the scenario of the specification (\<open>tmax = 100\<close>, \<open>dt_per_period = 100\<close>, \<open>t_trans = 10\<close>,
  \<open>omega = 0.28\<close>) the solver returns \<open>dt = pi / 14\<close> and cuts at \<open>idx = 44\<close>, so the first
  returned time is \<open>44 * dt = 22 * pi / 7\<close>, about \<open>9.87\<close>: one grid point before \<open>t_trans\<close>
  is kept.
\<close>

theorem C1_first_time_before_t_trans:
  "case solve_duffing odeint_euler 100 100 10 0 0 0.08 0.02 0.28 of
     Inl e \<Rightarrow> False
   | Inr (t, X, dt, step) \<Rightarrow> t \<noteq> [] \<and> hd t = 22 * pi / 7 \<and> hd t < 10 \<and> dt = pi / 14"
proof -
  let ?g = "arange 100 (pi / 14)"
  have "(44::real) < 100 / (pi / 14)"
    using pi_less_4 by (simp add: field_simps)
  then have "(44::int) < \<lceil>100 / (pi / 14)\<rceil>"
    by (simp add: less_ceiling_iff)
  then have "44 < nat \<lceil>100 / (pi / 14)\<rceil>"
    by linarith
  then have len: "44 < length ?g"
    by (simp only: arange_length)
  then have ne: "?g \<noteq> []"
    by auto
  have w: "(0.28::real) \<noteq> 0" and n: "(100::int) \<noteq> 0"
    by simp_all
  have u: "solve_duffing odeint_euler 100 100 10 0 0 0.08 0.02 0.28 =
      Inr (drop 44 ?g, drop 44 ((0, 0) # euler_from (\<lambda>X t. deriv X t 0.08 0.02 0.28) (0, 0) (hd ?g) (tl ?g)), pi / 14, 100)"
    unfolding solve_duffing_unfold[OF w n] dt_scenario idx_44 odeint_euler_Inr[OF ne]
    by (simp add: slice_from_def)
  have h: "hd (drop 44 ?g) = 22 * pi / 7"
    using len by (simp add: hd_drop_conv_nth arange_nth arange_length)
  have lt: "22 * pi / 7 < 10"
    using pi_upper by simp
  show ?thesis
    unfolding u sum.case prod.case h using len lt by simp
qed

subsection \<open>Errors\<close>




subsection \<open>The transient cut\<close>

lemma valid_idx:
  assumes "valid_input tmax n t_trans omega"
  shows "0 \<le> py_int (t_trans / (2 * pi / omega / of_int n))"
    and "nat (py_int (t_trans / (2 * pi / omega / of_int n))) < length (arange tmax (2 * pi / omega / of_int n))"
proof -
  let ?dt = "2 * pi / omega / real_of_int n"
  from assms have w: "0 < omega" and n: "0 < n" and t0: "0 \<le> t_trans" and t1: "t_trans < tmax"
    by (simp_all add: valid_input_def)
  have dt: "0 < ?dt"
    using w n by (rule dt_pos)
  have q0: "0 \<le> t_trans / ?dt"
    using t0 dt by (intro divide_nonneg_pos)
  then have i: "py_int (t_trans / ?dt) = \<lfloor>t_trans / ?dt\<rfloor>"
    by (simp only: py_int_def if_True)
  from q0 have "0 \<le> \<lfloor>t_trans / ?dt\<rfloor>"
    by (simp only: zero_le_floor)
  then show "0 \<le> py_int (t_trans / ?dt)"
    by (simp only: i)
  have "t_trans / ?dt < tmax / ?dt"
    using t1 dt by (rule divide_strict_right_mono)
  then have "of_int \<lfloor>t_trans / ?dt\<rfloor> < tmax / ?dt"
    using of_int_floor_le[of "t_trans / ?dt"] by linarith
  then have "\<lfloor>t_trans / ?dt\<rfloor> < \<lceil>tmax / ?dt\<rceil>"
    by (simp only: less_ceiling_iff)
  with \<open>0 \<le> \<lfloor>t_trans / ?dt\<rfloor>\<close> have "nat \<lfloor>t_trans / ?dt\<rfloor> < nat \<lceil>tmax / ?dt\<rceil>"
    by linarith
  then show "nat (py_int (t_trans / ?dt)) < length (arange tmax ?dt)"
    by (simp only: i arange_length)
qed

text \<open>
  What the cut does on a valid input: the first returned time is the last grid time at
  or before \<open>t_trans\<close>, less than \<open>dt\<close> before it.
\<close>

lemma first_time_at_most_t_trans:
  assumes "valid_input tmax n t_trans omega"
    and "od (\<lambda>X t. deriv X t gamma delta omega) (x0, v0) (arange tmax (2 * pi / omega / of_int n)) = Inr X"
  shows "\<exists>t' X'.
     solve_duffing od tmax n t_trans x0 v0 gamma delta omega = Inr (t', X', 2 * pi / omega / of_int n, n)
     \<and> t' \<noteq> [] \<and> hd t' \<le> t_trans \<and> t_trans - hd t' < 2 * pi / omega / of_int n"
proof -
  let ?dt = "2 * pi / omega / real_of_int n"
  let ?g = "arange tmax ?dt"
  let ?idx = "py_int (t_trans / ?dt)"
  from assms(1) have w: "omega \<noteq> 0" and n: "n \<noteq> 0" and wp: "0 < omega" and np: "0 < n"
    and t0: "0 \<le> t_trans"
    by (simp_all add: valid_input_def)
  have dt: "0 < ?dt"
    using wp np by (rule dt_pos)
  have i0: "0 \<le> ?idx" and i1: "nat ?idx < length ?g"
    using assms(1) by (rule valid_idx)+
  have u: "solve_duffing od tmax n t_trans x0 v0 gamma delta omega =
      Inr (drop (nat ?idx) ?g, drop (nat ?idx) X, ?dt, n)"
    unfolding solve_duffing_unfold[OF w n] assms(2) sum.case slice_from_nat[OF i0] ..
  have ne: "drop (nat ?idx) ?g \<noteq> []"
    using i1 by simp
  have "0 \<le> t_trans / ?dt"
    using t0 dt by (intro divide_nonneg_pos)
  then have i: "?idx = \<lfloor>t_trans / ?dt\<rfloor>"
    by (simp only: py_int_def if_True)
  have "hd (drop (nat ?idx) ?g) = ?g ! nat ?idx"
    using i1 by (rule hd_drop_conv_nth)
  also have "\<dots> = real (nat ?idx) * ?dt"
    using i1 by (simp only: arange_length arange_nth)
  also have "real (nat ?idx) = of_int \<lfloor>t_trans / ?dt\<rfloor>"
    using i0 by (simp only: i of_nat_nat)
  finally have h: "hd (drop (nat ?idx) ?g) = of_int \<lfloor>t_trans / ?dt\<rfloor> * ?dt" .
  have "of_int \<lfloor>t_trans / ?dt\<rfloor> \<le> t_trans / ?dt"
    by (rule of_int_floor_le)
  then have le: "of_int \<lfloor>t_trans / ?dt\<rfloor> * ?dt \<le> t_trans"
    using dt by (simp only: pos_le_divide_eq)
  have "t_trans / ?dt < of_int \<lfloor>t_trans / ?dt\<rfloor> + 1"
    using floor_correct[of "t_trans / ?dt"] by linarith
  then have "t_trans < (of_int \<lfloor>t_trans / ?dt\<rfloor> + 1) * ?dt"
    using dt by (simp only: pos_divide_less_eq)
  then have lt: "t_trans - of_int \<lfloor>t_trans / ?dt\<rfloor> * ?dt < ?dt"
    by (simp only: distrib_right mult_1)
  from u ne le lt show ?thesis
    unfolding h[symmetric] by blast
qed



text \<open>
  C10: two calls that agree on \<open>omega\<close> and \<open>dt_per_period\<close> and both return, return
  the same \<open>dt\<close> and the same \<open>step\<close>, whatever their other arguments are.
\<close>

theorem C10_dt_step_depend_on_omega_n:
  assumes "solve_duffing od tmax1 n t_trans1 x1 v1 gamma1 delta1 omega = Inr (t1, X1, dt1, step1)"
    and "solve_duffing od tmax2 n t_trans2 x2 v2 gamma2 delta2 omega = Inr (t2, X2, dt2, step2)"
  shows "dt1 = dt2 \<and> step1 = step2"
  using assms
  by (auto simp: solve_duffing_def Let_def split: if_splits sum.splits)

theorem C10_dt_step_depend_on_omega_n_witness:
  "solve_duffing odeint_euler 1 2 1 0 0 0.08 0.02 1 = Inr ([0], [(0, 0)], pi, 2)
   \<and> solve_duffing odeint_euler 2 2 5 0 0 0.08 0.02 1 = Inr ([], [], pi, 2)
   \<and> pi = pi \<and> (2::int) = 2"
  using run_tmax1_ttrans1 run_tmax2_ttrans5
    C10_dt_step_depend_on_omega_n[OF run_tmax1_ttrans1 run_tmax2_ttrans5]
  by simp






subsection \<open>The stride\<close>

text \<open>
  The binary64 operations round correctly: a result of the fragment is a normal number
  within half a unit in the last place of the exact quotient or product, and the
  conversion of an integer below \<open>2\<^sup>5\<^sup>3\<close> is exact.
\<close>

lemma round_half_even_near:
  assumes "0 < D"
  shows "\<bar>real_of_int (round_half_even N D) - real_of_int N / real_of_int D\<bar> \<le> 1 / 2"
proof -
  let ?q = "N div D" and ?r = "N mod D"
  have r: "0 \<le> ?r" "?r < D"
    using assms by simp_all
  have "N = D * ?q + ?r"
    by simp
  then have "real_of_int N = real_of_int D * real_of_int ?q + real_of_int ?r"
    by (metis of_int_add of_int_mult)
  then have e: "real_of_int N / real_of_int D = real_of_int ?q + real_of_int ?r / real_of_int D"
    using assms by (simp add: field_simps)
  show ?thesis
  proof (cases "D < 2 * ?r \<or> (2 * ?r = D \<and> odd ?q)")
    case True
    then have h: "real_of_int D \<le> 2 * real_of_int ?r"
      by linarith
    have v: "round_half_even N D = ?q + 1"
      using True by (simp add: round_half_even_def Let_def)
    have "real_of_int ?r / real_of_int D \<le> 1" "1 / 2 \<le> real_of_int ?r / real_of_int D"
      using assms r h by (simp_all add: field_simps)
    then show ?thesis
      unfolding v e by simp
  next
    case False
    then have h: "2 * real_of_int ?r \<le> real_of_int D"
      by linarith
    have v: "round_half_even N D = ?q"
      using False by (simp add: round_half_even_def Let_def)
    have "0 \<le> real_of_int ?r / real_of_int D" "real_of_int ?r / real_of_int D \<le> 1 / 2"
      using assms r h by (simp_all add: field_simps)
    then show ?thesis
      unfolding v e by simp
  qed
qed

lemma f64_pack_Some:
  assumes "f64_pack m e = Some c"
  shows "f64_normal c" and "f64_val c = of_int m * 2 powi e" and "e \<le> snd c"
proof -
  from assms show "f64_normal c"
    by (auto simp: f64_pack_def Let_def split: if_splits)
  from assms show "e \<le> snd c"
    by (auto simp: f64_pack_def Let_def split: if_splits)
  from assms show "f64_val c = of_int m * 2 powi e"
    by (auto simp: f64_pack_def Let_def f64_val_def power_int_add split: if_splits)
qed

lemma quot_scale:
  fixes A B :: real
  assumes "B \<noteq> 0"
  shows "(A * 2 powi ea) / (B * 2 powi eb) = (A * 2 ^ s / B) * 2 powi (ea - eb - int s)"
proof -
  have "(2::real) powi (ea - eb - int s) = 2 powi ea / 2 powi eb / 2 ^ s"
    by (simp add: power_int_diff)
  then show ?thesis
    using assms by simp
qed

lemma prod_scale:
  fixes A B :: real
  shows "(A * 2 powi ea) * (B * 2 powi eb) = (A * B / 2 ^ s) * 2 powi (ea + eb + int s)"
proof -
  have "(2::real) powi (ea + eb + int s) = 2 powi ea * 2 powi eb * 2 ^ s"
    by (simp add: power_int_add)
  then show ?thesis
    by simp
qed

lemma f64_div_rounds:
  assumes "f64_normal a" and "f64_normal b" and "f64_div a b = Some c"
  shows "f64_normal c \<and> \<bar>f64_val c - f64_val a / f64_val b\<bar> \<le> 2 powi (snd c) / 2"
proof -
  define s :: nat where "s = (if fst b \<le> fst a then 52 else 53)"
  define e where "e = snd a - snd b - int s"
  define m where "m = round_half_even (fst a * 2 ^ s) (fst b)"
  have p: "f64_pack m e = Some c"
    using assms(3) by (simp add: f64_div_def Let_def s_def e_def m_def)
  have b0: "0 < fst b"
    using assms(2) by (simp add: f64_normal_def)
  then have rb0: "0 < real_of_int (fst b)"
    by simp
  have "f64_val a / f64_val b =
      (real_of_int (fst a) * 2 ^ s / real_of_int (fst b)) * 2 powi e"
    unfolding f64_val_def e_def by (rule quot_scale) (use rb0 in simp)
  then have x: "f64_val a / f64_val b =
      (real_of_int (fst a * 2 ^ s) / real_of_int (fst b)) * 2 powi e"
    by simp
  have "f64_val c - f64_val a / f64_val b =
      (real_of_int m - real_of_int (fst a * 2 ^ s) / real_of_int (fst b)) * 2 powi e"
    unfolding x f64_pack_Some(2)[OF p] by (simp add: algebra_simps)
  then have "\<bar>f64_val c - f64_val a / f64_val b\<bar> =
      \<bar>real_of_int m - real_of_int (fst a * 2 ^ s) / real_of_int (fst b)\<bar> * 2 powi e"
    by (simp add: abs_mult)
  also have "\<dots> \<le> 1 / 2 * 2 powi e"
    unfolding m_def by (intro mult_right_mono round_half_even_near[OF b0]) simp
  also have "\<dots> \<le> 1 / 2 * 2 powi (snd c)"
    using f64_pack_Some(3)[OF p] by (intro mult_left_mono power_int_increasing) simp_all
  finally show ?thesis
    using f64_pack_Some(1)[OF p] by simp
qed

lemma f64_mul_rounds:
  assumes "f64_mul a b = Some c"
  shows "f64_normal c \<and> \<bar>f64_val c - f64_val a * f64_val b\<bar> \<le> 2 powi (snd c) / 2"
proof -
  define s :: nat where "s = (if fst a * fst b < 2 ^ 105 then 52 else 53)"
  define e where "e = snd a + snd b + int s"
  define m where "m = round_half_even (fst a * fst b) (2 ^ s)"
  have p: "f64_pack m e = Some c"
    using assms by (simp add: f64_mul_def Let_def s_def e_def m_def)
  have "f64_val a * f64_val b =
      (real_of_int (fst a) * real_of_int (fst b) / 2 ^ s) * 2 powi e"
    unfolding f64_val_def e_def by (rule prod_scale)
  then have "f64_val a * f64_val b =
      (real_of_int (fst a * fst b) / real_of_int (2 ^ s)) * 2 powi e"
    by simp
  then have "f64_val c - f64_val a * f64_val b =
      (real_of_int m - real_of_int (fst a * fst b) / real_of_int (2 ^ s)) * 2 powi e"
    unfolding f64_pack_Some(2)[OF p] by (simp add: algebra_simps)
  then have "\<bar>f64_val c - f64_val a * f64_val b\<bar> =
      \<bar>real_of_int m - real_of_int (fst a * fst b) / real_of_int (2 ^ s)\<bar> * 2 powi e"
    by (simp add: abs_mult)
  also have "\<dots> \<le> 1 / 2 * 2 powi e"
    unfolding m_def by (intro mult_right_mono round_half_even_near) simp_all
  also have "\<dots> \<le> 1 / 2 * 2 powi (snd c)"
    using f64_pack_Some(3)[OF p] by (intro mult_left_mono power_int_increasing) simp_all
  finally show ?thesis
    using f64_pack_Some(1)[OF p] by simp
qed

lemma f64_shift_val: "f64_val (f64_shift m e) = of_int m * 2 powi e"
proof (induction m e rule: f64_shift.induct)
  case (1 m e)
  show ?case
  proof (cases "0 < m \<and> m < 2 ^ 52")
    case True
    then have "f64_val (f64_shift m e) = f64_val (f64_shift (2 * m) (e - 1))"
      by (subst f64_shift.simps) simp
    also have "\<dots> = of_int (2 * m) * 2 powi (e - 1)"
      using True by (intro "1.IH") simp
    also have "\<dots> = of_int m * 2 powi e"
      by (simp add: power_int_diff)
    finally show ?thesis .
  next
    case False
    then have "f64_shift m e = (m, e)"
      by (subst f64_shift.simps) auto
    then show ?thesis
      by (simp add: f64_val_def)
  qed
qed

lemma f64_of_int_exact: "f64_of_int n = Some c \<Longrightarrow> f64_val c = of_int n"
  using f64_shift_val[of n 0] by (auto simp: f64_of_int_def split: if_splits)


text \<open>
  C3: \<open>step = int(period / dt)\<close> is claimed to equal \<open>dt_per_period\<close> for every
  \<open>omega > 0\<close> and \<open>dt_per_period \<ge> 2\<close>. In exact arithmetic it does
  (\<open>solve_duffing_unfold\<close>). In binary64, for \<open>omega = 0.28\<close> and \<open>dt_per_period = 127\<close>,
  the rounded quotient \<open>period / dt\<close> is \<open>8936830510563327 * 2\<^sup>-\<^sup>4\<^sup>6\<close>, one unit in the last
  place below \<open>127\<close>, and \<open>int\<close> truncates it to \<open>126\<close>.
\<close>

theorem C3_stride_binary64:
  "stride_f64 omega_028 127 =
     Some ((6316283707168249, - 48), (6366018224547527, - 55), 126)"
  by code_simp

lemma omega_028_normal: "f64_normal omega_028"
  by (simp add: f64_normal_def omega_028_def)

lemma omega_028_nearest: "\<bar>f64_val omega_028 - 0.28\<bar> \<le> 2 powi (- 55)"
  by (simp add: f64_val_def omega_028_def power_int_minus field_simps)

lemma np_pi_normal: "f64_normal np_pi"
  by (simp add: f64_normal_def np_pi_def)

end
